theory Spec2Isabelle
  imports Main
begin

section \<open>Data model of \<open>chia/wallet/wallet_blockchain.py\<close>\<close>

text \<open>
  Header hashes are opaque 32-byte identifiers of which only equality is used;
  heights (uint32), weights (uint128) and timestamps (uint64) are range-checked
  subclasses of Python's unbounded \<open>int\<close> (construction outside the range raises,
  arithmetic yields a plain \<open>int\<close>), and \<open>WalletBlockchain\<close> performs no
  arithmetic on them besides \<open>self._peak.height + 1\<close> as a plain \<open>int\<close>.
  They are natural numbers here.
\<close>

type_synonym bytes32 = nat
type_synonym uint32 = nat
type_synonym uint64 = nat
type_synonym uint128 = nat

text \<open>
  The fields of \<open>HeaderBlock\<close> that \<open>WalletBlockchain\<close> reads:
  \<open>header_hash\<close>, \<open>prev_header_hash\<close>, \<open>height\<close>, \<open>weight\<close>,
  \<open>finished_sub_slots\<close> (only its length) and \<open>foliage_transaction_block\<close>
  (optional; only its \<open>timestamp\<close>).
\<close>

record HeaderBlock =
  hb_header_hash :: bytes32
  hb_prev_header_hash :: bytes32
  hb_height :: uint32
  hb_weight :: uint128
  hb_finished_sub_slots :: "nat list"
  hb_foliage_transaction_block :: "uint64 option"

text \<open>
  The fields of \<open>BlockRecord\<close> that \<open>WalletBlockchain\<close> reads.
  \<open>is_transaction_block\<close> is kept as a field of its own, so that the assertion
  of \<open>new_weight_proof\<close> (\<open>assert record.timestamp is not None\<close>) stays a branch.
\<close>

record BlockRecord =
  header_hash :: bytes32
  prev_hash :: bytes32
  height :: uint32
  weight :: uint128
  timestamp :: "uint64 option"
  is_transaction_block :: bool

record WeightProof =
  recent_chain_data :: "HeaderBlock list"

datatype ReceiveBlockResult =
  NEW_PEAK | ADDED_AS_ORPHAN | INVALID_BLOCK | ALREADY_HAVE_BLOCK | DISCONNECTED_BLOCK

datatype Err = INVALID_PREV_BLOCK_HASH | INVALID_POSPACE | ErrCode nat

text \<open>The exceptions that the Python code of \<open>WalletBlockchain\<close> can raise.\<close>

datatype exn = KeyError | IndexError | AssertionError

text \<open>
  Modelled from the spec: the key/value store \<open>KeyValStore\<close> (not among the sources)
  is "generic typed persistence" with \<open>get_object(key, type)\<close>,
  \<open>set_object(key, value)\<close> and \<open>remove_object(key)\<close>. It is a dictionary from
  keys to the stored objects; \<open>get_object\<close> yields \<open>None\<close> when nothing of the
  requested type is stored under the key.
\<close>

datatype stored_object = StoredHeaderBlock HeaderBlock | StoredWeightProof WeightProof

type_synonym KeyValStore = "string \<rightharpoonup> stored_object"

definition get_object_HeaderBlock :: "KeyValStore \<Rightarrow> string \<Rightarrow> HeaderBlock option" where
  "get_object_HeaderBlock st k =
     (case st k of Some (StoredHeaderBlock b) \<Rightarrow> Some b | _ \<Rightarrow> None)"

definition get_object_WeightProof :: "KeyValStore \<Rightarrow> string \<Rightarrow> WeightProof option" where
  "get_object_WeightProof st k =
     (case st k of Some (StoredWeightProof w) \<Rightarrow> Some w | _ \<Rightarrow> None)"

definition set_object :: "KeyValStore \<Rightarrow> string \<Rightarrow> stored_object \<Rightarrow> KeyValStore" where
  "set_object st k v = st(k \<mapsto> v)"

definition remove_object :: "KeyValStore \<Rightarrow> string \<Rightarrow> KeyValStore" where
  "remove_object st k = st(k := None)"

text \<open>
  Python's dictionary \<open>_height_to_hash\<close> is annotated \<open>Dict[uint32, bytes32]\<close>, but
  nothing enforces the annotation: \<open>receive_block\<close> stores a whole \<open>BlockRecord\<close>
  in it (\<open>self._height_to_hash[curr_record.height] = curr_record\<close>). The values
  of the dictionary are therefore either of the two.
\<close>

datatype height_entry = HashEntry bytes32 | RecordEntry BlockRecord

record WalletBlockchain =
  basic_store :: KeyValStore
  synced_weight_proof :: "WeightProof option"
  peak :: "HeaderBlock option"
  height_to_hash_map :: "uint32 \<rightharpoonup> height_entry"
  block_records :: "bytes32 \<rightharpoonup> BlockRecord"
  latest_timestamp :: uint64

text \<open>
  The collaborators imported from \<open>chia.consensus\<close> and
  \<open>chia.wallet.wallet_weight_proof_handler\<close> are not among the sources; they are
  parameters. Each receives the blockchain (\<open>self\<close>) as its read-only chain view.
  \<open>find_fork_point_in_chain\<close> looks records up in the index and can fail there.
\<close>

record externals =
  SUB_SLOT_ITERS_STARTING :: uint64
  DIFFICULTY_STARTING :: uint64
  get_next_sub_slot_iters_and_difficulty ::
    "bool \<Rightarrow> BlockRecord \<Rightarrow> WalletBlockchain \<Rightarrow> uint64 \<times> uint64"
  validate_finished_header_block ::
    "WalletBlockchain \<Rightarrow> HeaderBlock \<Rightarrow> uint64 \<Rightarrow> uint64 \<Rightarrow> uint64 option \<times> Err option"
  block_to_block_record :: "WalletBlockchain \<Rightarrow> uint64 \<Rightarrow> HeaderBlock \<Rightarrow> BlockRecord"
  find_fork_point_in_chain ::
    "WalletBlockchain \<Rightarrow> BlockRecord \<Rightarrow> HeaderBlock \<Rightarrow> exn + int"
  validate_weight_proof :: "WeightProof \<Rightarrow> bool \<times> BlockRecord list"

section \<open>The operations of \<open>WalletBlockchain\<close>\<close>

text \<open>
  A method that mutates \<open>self\<close> returns its outcome (\<open>Inl\<close> an exception, \<open>Inr\<close>
  the returned value) together with the blockchain as the call left it: an exception
  does not undo the assignments made before it.
\<close>

definition contains_block :: "WalletBlockchain \<Rightarrow> bytes32 \<Rightarrow> bool" where
  "contains_block s h = (h \<in> dom (block_records s))"

definition contains_height :: "WalletBlockchain \<Rightarrow> uint32 \<Rightarrow> bool" where
  "contains_height s h = (h \<in> dom (height_to_hash_map s))"

definition height_to_hash :: "WalletBlockchain \<Rightarrow> uint32 \<Rightarrow> exn + height_entry" where
  "height_to_hash s h =
     (case height_to_hash_map s h of None \<Rightarrow> Inl KeyError | Some e \<Rightarrow> Inr e)"

definition block_record :: "WalletBlockchain \<Rightarrow> bytes32 \<Rightarrow> exn + BlockRecord" where
  "block_record s h =
     (case block_records s h of None \<Rightarrow> Inl KeyError | Some r \<Rightarrow> Inr r)"

definition try_block_record :: "WalletBlockchain \<Rightarrow> bytes32 \<Rightarrow> BlockRecord option" where
  "try_block_record s h =
     (if contains_block s h
      then (case block_record s h of Inr r \<Rightarrow> Some r | Inl e \<Rightarrow> None)
      else None)"

definition add_block_record :: "WalletBlockchain \<Rightarrow> BlockRecord \<Rightarrow> WalletBlockchain" where
  "add_block_record s r = s\<lparr>block_records := (block_records s)(header_hash r \<mapsto> r)\<rparr>"

definition get_latest_timestamp :: "WalletBlockchain \<Rightarrow> uint64" where
  "get_latest_timestamp s = latest_timestamp s"

definition get_peak_height :: "WalletBlockchain \<Rightarrow> uint32" where
  "get_peak_height s = (case peak s of None \<Rightarrow> 0 | Some p \<Rightarrow> hb_height p)"

definition get_peak_block :: "WalletBlockchain \<Rightarrow> HeaderBlock option" where
  "get_peak_block s =
     (case peak s of Some p \<Rightarrow> Some p
      | None \<Rightarrow> get_object_HeaderBlock (basic_store s) ''PEAK_BLOCK'')"

definition set_peak_block ::
  "WalletBlockchain \<Rightarrow> HeaderBlock \<Rightarrow> uint64 option \<Rightarrow> WalletBlockchain" where
  "set_peak_block s block ts =
     (let s1 = s\<lparr>basic_store := set_object (basic_store s) ''PEAK_BLOCK'' (StoredHeaderBlock block)\<rparr>;
          s2 = s1\<lparr>peak := Some block\<rparr>
      in case ts of
           Some t \<Rightarrow> s2\<lparr>latest_timestamp := t\<rparr>
         | None \<Rightarrow>
             (case hb_foliage_transaction_block block of
                Some t \<Rightarrow> s2\<lparr>latest_timestamp := t\<rparr>
              | None \<Rightarrow> s2))"

text \<open>
  \<open>del self._height_to_hash[uint32(h)]\<close> for each \<open>h\<close> of the range, in order;
  \<open>del\<close> raises \<open>KeyError\<close> on an absent key and leaves the earlier deletions.
\<close>

fun del_heights ::
  "nat list \<Rightarrow> (uint32 \<rightharpoonup> height_entry) \<Rightarrow> (exn + unit) \<times> (uint32 \<rightharpoonup> height_entry)" where
  "del_heights [] m = (Inr (), m)"
| "del_heights (h # hs) m =
     (case m h of
        None \<Rightarrow> (Inl KeyError, m)
      | Some e \<Rightarrow> del_heights hs (m(h := None)))"

definition rollback_to_height ::
  "WalletBlockchain \<Rightarrow> int \<Rightarrow> (exn + unit) \<times> WalletBlockchain" where
  "rollback_to_height s fork_height =
     (case peak s of
        None \<Rightarrow> (Inr (), s)
      | Some p \<Rightarrow>
          (case del_heights [nat (max 0 fork_height) ..< hb_height p + 1] (height_to_hash_map s) of
             (Inl e, m) \<Rightarrow> (Inl e, s\<lparr>height_to_hash_map := m\<rparr>)
           | (Inr u, m) \<Rightarrow>
               (Inr (), s\<lparr>height_to_hash_map := m,
                          basic_store := remove_object (basic_store s) ''PEAK_BLOCK''\<rparr>)))"

text \<open>
  \<open>weight_proof.recent_chain_data[-1]\<close>: the last entry, \<open>IndexError\<close> on an
  empty list.
\<close>

definition recent_chain_data_last :: "WeightProof \<Rightarrow> exn + HeaderBlock" where
  "recent_chain_data_last wp =
     (case recent_chain_data wp of [] \<Rightarrow> Inl IndexError | x # xs \<Rightarrow> Inr (last (x # xs)))"

text \<open>
  The guard of \<open>new_weight_proof\<close>,
  \<open>peak is not None and weight_proof.recent_chain_data[-1].weight <= peak.weight\<close>;
  \<open>and\<close> does not evaluate its right operand when there is no peak.
\<close>

definition no_update :: "HeaderBlock option \<Rightarrow> WeightProof \<Rightarrow> exn + bool" where
  "no_update pk wp =
     (case pk of
        None \<Rightarrow> Inr False
      | Some p \<Rightarrow>
          (case recent_chain_data_last wp of
             Inl e \<Rightarrow> Inl e
           | Inr t \<Rightarrow> Inr (hb_weight t \<le> hb_weight p)))"

text \<open>The loop \<open>for record in records\<close> of \<open>new_weight_proof\<close>.\<close>

fun apply_records ::
  "BlockRecord list \<Rightarrow> WalletBlockchain \<Rightarrow> uint64 \<Rightarrow> (exn + uint64) \<times> WalletBlockchain" where
  "apply_records [] s ts = (Inr ts, s)"
| "apply_records (r # rs) s ts =
     (let s1 = s\<lparr>height_to_hash_map :=
                   (height_to_hash_map s)(height r \<mapsto> HashEntry (header_hash r))\<rparr>;
          s2 = add_block_record s1 r
      in if is_transaction_block r
         then (case timestamp r of
                 None \<Rightarrow> (Inl AssertionError, s2)
               | Some t \<Rightarrow> apply_records rs s2 (if t > ts then t else ts))
         else apply_records rs s2 ts)"

definition new_weight_proof ::
  "externals \<Rightarrow> WalletBlockchain \<Rightarrow> WeightProof \<Rightarrow> BlockRecord list option
     \<Rightarrow> (exn + unit) \<times> WalletBlockchain" where
  "new_weight_proof ext s weight_proof records =
     (case no_update (get_peak_block s) weight_proof of
        Inl e \<Rightarrow> (Inl e, s)
      | Inr True \<Rightarrow> (Inr (), s)
      | Inr False \<Rightarrow>
          (let s1 = s\<lparr>synced_weight_proof := Some weight_proof\<rparr>;
               s2 = s1\<lparr>basic_store := set_object (basic_store s1) ''SYNCED_WEIGHT_PROOF''
                                        (StoredWeightProof weight_proof)\<rparr>;
               ts0 = latest_timestamp s2
           in case (case records of
                      Some rs \<Rightarrow> Inr rs
                    | None \<Rightarrow>
                        (case validate_weight_proof ext weight_proof of
                           (success, rs) \<Rightarrow> if success then Inr rs else Inl AssertionError)) of
                Inl e \<Rightarrow> (Inl e, s2)
              | Inr rs \<Rightarrow>
                  (case apply_records rs s2 ts0 of
                     (Inl e, s3) \<Rightarrow> (Inl e, s3)
                   | (Inr ts, s3) \<Rightarrow>
                       (case recent_chain_data_last weight_proof of
                          Inl e \<Rightarrow> (Inl e, s3)
                        | Inr tail \<Rightarrow> (Inr (), set_peak_block s3 tail (Some ts))))))"

text \<open>
  The loop \<open>while curr_record.height > fork_height\<close> of \<open>receive_block\<close>, on the
  block records, the height dictionary and the running timestamp. It follows
  \<open>prev_hash\<close> links for as long as the heights stay above the fork height, which
  nothing bounds on an arbitrary index: \<open>None\<close> is the loop that never ends.
  The dictionary lookup \<open>self.block_record(...)\<close> raises \<open>KeyError\<close>.
\<close>

partial_function (option) repopulate ::
  "(bytes32 \<rightharpoonup> BlockRecord) \<Rightarrow> int \<Rightarrow> BlockRecord \<Rightarrow> (uint32 \<rightharpoonup> height_entry) \<Rightarrow> uint64
     \<Rightarrow> ((exn + uint64) \<times> (uint32 \<rightharpoonup> height_entry)) option" where
  "repopulate recs fork_height curr_record m ts =
     (if int (height curr_record) > fork_height
      then (let m1 = m(height curr_record \<mapsto> RecordEntry curr_record);
                ts1 = (case timestamp curr_record of
                         Some t \<Rightarrow> if t > ts then t else ts
                       | None \<Rightarrow> ts)
            in if height curr_record = 0 then Some (Inr ts1, m1)
               else (case recs (prev_hash curr_record) of
                       None \<Rightarrow> Some (Inl KeyError, m1)
                     | Some r \<Rightarrow> repopulate recs fork_height r m1 ts1))
      else Some (Inr ts, m))"

text \<open>
  The starting values or the adjusted ones of \<open>receive_block\<close>; \<open>None\<close> when the
  previous block is not in the index.
\<close>

definition sub_slot_iters_and_difficulty ::
  "externals \<Rightarrow> WalletBlockchain \<Rightarrow> HeaderBlock \<Rightarrow> (uint64 \<times> uint64) option" where
  "sub_slot_iters_and_difficulty ext s block =
     (if hb_height block = 0
      then Some (SUB_SLOT_ITERS_STARTING ext, DIFFICULTY_STARTING ext)
      else (case try_block_record s (hb_prev_header_hash block) of
              None \<Rightarrow> None
            | Some prev_b \<Rightarrow>
                Some (get_next_sub_slot_iters_and_difficulty ext
                        (length (hb_finished_sub_slots block) > 0) prev_b s)))"

text \<open>
  The part of \<open>receive_block\<close> after \<open>self.add_block_record(block_record)\<close>.
\<close>

definition adopt_block ::
  "externals \<Rightarrow> WalletBlockchain \<Rightarrow> HeaderBlock \<Rightarrow> BlockRecord
     \<Rightarrow> ((exn + ReceiveBlockResult \<times> Err option) \<times> WalletBlockchain) option" where
  "adopt_block ext s1 block br =
     (case peak s1 of
        None \<Rightarrow>
          (let ts = (if is_transaction_block br then timestamp br else None);
               s2 = s1\<lparr>height_to_hash_map :=
                          (height_to_hash_map s1)(height br \<mapsto> HashEntry (header_hash br))\<rparr>
           in Some (Inr (NEW_PEAK, None), set_peak_block s2 block ts))
      | Some p \<Rightarrow>
          if weight br > hb_weight p
          then (case (if prev_hash br = hb_header_hash p then Inr (int (hb_height p))
                      else find_fork_point_in_chain ext s1 br p) of
                  Inl e \<Rightarrow> Some (Inl e, s1)
                | Inr fork_height \<Rightarrow>
                    (case rollback_to_height s1 fork_height of
                       (Inl e, s2) \<Rightarrow> Some (Inl e, s2)
                     | (Inr u, s2) \<Rightarrow>
                         (case repopulate (block_records s2) fork_height br
                                 (height_to_hash_map s2) (latest_timestamp s2) of
                            None \<Rightarrow> None
                          | Some (Inl e, m) \<Rightarrow> Some (Inl e, s2\<lparr>height_to_hash_map := m\<rparr>)
                          | Some (Inr ts, m) \<Rightarrow>
                              Some (Inr (NEW_PEAK, None),
                                    set_peak_block (s2\<lparr>height_to_hash_map := m\<rparr>) block (Some ts)))))
          else Some (Inr (ADDED_AS_ORPHAN, None), s1))"

definition receive_block ::
  "externals \<Rightarrow> WalletBlockchain \<Rightarrow> HeaderBlock
     \<Rightarrow> ((exn + ReceiveBlockResult \<times> Err option) \<times> WalletBlockchain) option" where
  "receive_block ext s block =
     (if contains_block s (hb_header_hash block)
      then Some (Inr (ALREADY_HAVE_BLOCK, None), s)
      else (case sub_slot_iters_and_difficulty ext s block of
              None \<Rightarrow> Some (Inr (DISCONNECTED_BLOCK, Some INVALID_PREV_BLOCK_HASH), s)
            | Some (sub_slot_iters, difficulty) \<Rightarrow>
                (case validate_finished_header_block ext s block difficulty sub_slot_iters of
                   (required_iters, Some error) \<Rightarrow> Some (Inr (INVALID_BLOCK, Some error), s)
                 | (None, None) \<Rightarrow> Some (Inr (INVALID_BLOCK, Some INVALID_POSPACE), s)
                 | (Some required_iters, None) \<Rightarrow>
                     (let br = block_to_block_record ext s required_iters block
                      in adopt_block ext (add_block_record s br) block br))))"

text \<open>
  \<open>WalletBlockchain.create\<close>: the attributes in the order of their assignment; the
  peak is read from the store before the index is emptied and the persisted weight
  proof is handed to \<open>new_weight_proof\<close>.
\<close>

definition create ::
  "KeyValStore \<Rightarrow> externals \<Rightarrow> (exn + unit) \<times> WalletBlockchain" where
  "create store ext =
     (let s0 = \<lparr>basic_store = store,
                synced_weight_proof = get_object_WeightProof store ''SYNCED_WEIGHT_PROOF'',
                peak = None,
                height_to_hash_map = Map.empty,
                block_records = Map.empty,
                latest_timestamp = 0\<rparr>;
          s1 = s0\<lparr>peak := get_peak_block s0\<rparr>;
          s2 = s1\<lparr>latest_timestamp := 0, height_to_hash_map := Map.empty,
                  block_records := Map.empty\<rparr>
      in case synced_weight_proof s2 of
           None \<Rightarrow> (Inr (), s2)
         | Some wp \<Rightarrow> new_weight_proof ext s2 wp None)"

declare repopulate.simps [code]

section \<open>Sequences of calls\<close>

text \<open>
  A sequence of \<open>receive_block\<close> calls on one blockchain: each call starts from
  the blockchain as the previous one left it, whatever its outcome.
\<close>

fun receive_blocks ::
  "externals \<Rightarrow> WalletBlockchain \<Rightarrow> HeaderBlock list \<Rightarrow> WalletBlockchain option" where
  "receive_blocks ext s [] = Some s"
| "receive_blocks ext s (b # bs) =
     (case receive_block ext s b of
        None \<Rightarrow> None
      | Some (out, s1) \<Rightarrow> receive_blocks ext s1 bs)"

datatype mutation =
  ReceiveBlock HeaderBlock
| NewWeightProof WeightProof "BlockRecord list option"

fun apply_mutation ::
  "externals \<Rightarrow> WalletBlockchain \<Rightarrow> mutation \<Rightarrow> WalletBlockchain option" where
  "apply_mutation ext s (ReceiveBlock b) = map_option snd (receive_block ext s b)"
| "apply_mutation ext s (NewWeightProof wp rs) = Some (snd (new_weight_proof ext s wp rs))"

fun apply_mutations ::
  "externals \<Rightarrow> WalletBlockchain \<Rightarrow> mutation list \<Rightarrow> WalletBlockchain option" where
  "apply_mutations ext s [] = Some s"
| "apply_mutations ext s (m # ms) =
     (case apply_mutation ext s m of
        None \<Rightarrow> None
      | Some s1 \<Rightarrow> apply_mutations ext s1 ms)"

definition peak_weight :: "WalletBlockchain \<Rightarrow> uint128" where
  "peak_weight s = (case peak s of None \<Rightarrow> 0 | Some p \<Rightarrow> hb_weight p)"

text \<open>
  What the claims about weights and hashes need of the block-record constructor:
  the record of a header block carries the block's header hash and weight.
\<close>

definition record_keeps_hash :: "externals \<Rightarrow> bool" where
  "record_keeps_hash ext =
     (\<forall>s ri b. header_hash (block_to_block_record ext s ri b) = hb_header_hash b)"

definition record_keeps_weight :: "externals \<Rightarrow> bool" where
  "record_keeps_weight ext =
     (\<forall>s ri b. weight (block_to_block_record ext s ri b) = hb_weight b)"

text \<open>
  Before the first peak is set, the latest timestamp is the \<open>uint64(0)\<close> that
  \<open>create\<close> assigned: only \<open>set_peak_block\<close> assigns it afterwards.
\<close>

definition timestamp_initial :: "WalletBlockchain \<Rightarrow> bool" where
  "timestamp_initial s = (peak s = None \<longrightarrow> latest_timestamp s = 0)"

section \<open>Concrete collaborators and chains\<close>

text \<open>
  An instance of the collaborators: every header block is valid, its record copies
  its fields, and the weight proof's records are those of its recent chain data.
\<close>

definition record_of_header :: "HeaderBlock \<Rightarrow> BlockRecord" where
  "record_of_header b =
     \<lparr>header_hash = hb_header_hash b, prev_hash = hb_prev_header_hash b,
      height = hb_height b, weight = hb_weight b,
      timestamp = hb_foliage_transaction_block b,
      is_transaction_block = (hb_foliage_transaction_block b \<noteq> None)\<rparr>"

text \<open>
  Modelled from the spec: the fork-point function \<open>find_fork_point_in_chain\<close> (not
  among the sources) "walks both chains backward via parent-hash links through the
  index until a common ancestor height is found" and "fails if either side's history
  has been pruned". Each side is a triple of height, header hash and parent hash; the
  higher side steps back first, both step back at equal heights and different hashes.
  The walk is cut off, as a failure, after as many steps as the two heights allow on
  an index whose heights decrease along parent links.
\<close>

fun fork_point_walk ::
  "nat \<Rightarrow> (bytes32 \<rightharpoonup> BlockRecord) \<Rightarrow> uint32 \<times> bytes32 \<times> bytes32
     \<Rightarrow> uint32 \<times> bytes32 \<times> bytes32 \<Rightarrow> exn + int" where
  "fork_point_walk 0 recs a b = Inl KeyError"
| "fork_point_walk (Suc n) recs (ha, xa, pa) (hb, xb, pb) =
     (if ha > hb
      then (case recs pa of
              None \<Rightarrow> Inl KeyError
            | Some r \<Rightarrow>
                fork_point_walk n recs (height r, header_hash r, prev_hash r) (hb, xb, pb))
      else if hb > ha
      then (case recs pb of
              None \<Rightarrow> Inl KeyError
            | Some r \<Rightarrow>
                fork_point_walk n recs (ha, xa, pa) (height r, header_hash r, prev_hash r))
      else if xa = xb then Inr (int ha)
      else if ha = 0 then Inr (- 1)
      else (case recs pa of
              None \<Rightarrow> Inl KeyError
            | Some ra \<Rightarrow>
                (case recs pb of
                   None \<Rightarrow> Inl KeyError
                 | Some rb \<Rightarrow>
                     fork_point_walk n recs (height ra, header_hash ra, prev_hash ra)
                       (height rb, header_hash rb, prev_hash rb))))"

definition find_fork_point_in_chain_spec ::
  "WalletBlockchain \<Rightarrow> BlockRecord \<Rightarrow> HeaderBlock \<Rightarrow> exn + int" where
  "find_fork_point_in_chain_spec s r p =
     fork_point_walk (height r + hb_height p + 1) (block_records s)
       (height r, header_hash r, prev_hash r)
       (hb_height p, hb_header_hash p, hb_prev_header_hash p)"

definition simple_externals :: externals where
  "simple_externals =
     \<lparr>SUB_SLOT_ITERS_STARTING = 1, DIFFICULTY_STARTING = 1,
      get_next_sub_slot_iters_and_difficulty = (\<lambda>new_slot prev_b s. (1, 1)),
      validate_finished_header_block = (\<lambda>s b d i. (Some 1, None)),
      block_to_block_record = (\<lambda>s ri b. record_of_header b),
      find_fork_point_in_chain = find_fork_point_in_chain_spec,
      validate_weight_proof = (\<lambda>wp. (True, map record_of_header (recent_chain_data wp)))\<rparr>"

text \<open>The same collaborators with a weight-proof verifier that rejects every proof.\<close>

definition rejecting_externals :: externals where
  "rejecting_externals = simple_externals\<lparr>validate_weight_proof := (\<lambda>wp. (False, []))\<rparr>"

text \<open>The blockchain that \<open>create\<close> builds on an empty store.\<close>

definition empty_chain :: WalletBlockchain where
  "empty_chain =
     \<lparr>basic_store = Map.empty, synced_weight_proof = None, peak = None,
      height_to_hash_map = Map.empty, block_records = Map.empty, latest_timestamp = 0\<rparr>"

text \<open>A header block of the given hash, parent hash, height, weight and timestamp.\<close>

definition mk_block :: "bytes32 \<Rightarrow> bytes32 \<Rightarrow> uint32 \<Rightarrow> uint128 \<Rightarrow> uint64 option \<Rightarrow> HeaderBlock" where
  "mk_block h p ht w ts =
     \<lparr>hb_header_hash = h, hb_prev_header_hash = p, hb_height = ht, hb_weight = w,
      hb_finished_sub_slots = [], hb_foliage_transaction_block = ts\<rparr>"

text \<open>
  The genesis block (height 0, weight 0), its child (height 1, weight 10) and a
  second block of height 1 and weight 10 on the same parent.
\<close>

definition genesis :: HeaderBlock where
  "genesis = mk_block 100 0 0 0 (Some 1000)"

definition child :: HeaderBlock where
  "child = mk_block 101 100 1 10 (Some 1010)"

definition sibling :: HeaderBlock where
  "sibling = mk_block 151 100 1 10 (Some 1005)"

text \<open>
  Chain A, heights 0 to 10, of hashes 100 to 110 and weights 0, 10, ..., 100, and
  chain B, whose first block of its own has height \<open>k\<close> and chain A's block of
  height \<open>k - 1\<close> as parent: heights \<open>k\<close> to 11, of hashes \<open>200 + k\<close> to 211 and
  of weights below 100, and the block of height 12, hash 212 and weight 110.
\<close>

definition chain_A :: "HeaderBlock list" where
  "chain_A =
     mk_block 100 0 0 0 None #
     map (\<lambda>h. mk_block (100 + h) (99 + h) h (10 * h) None) [1 ..< 11]"

definition chain_B :: "nat \<Rightarrow> HeaderBlock list" where
  "chain_B k =
     map (\<lambda>h. mk_block (200 + h) (if h = k then 99 + h else 199 + h) h (10 * h - 5) None)
       [k ..< 11]
     @ [mk_block 211 210 11 99 None]"

definition B12 :: HeaderBlock where
  "B12 = mk_block 212 211 12 110 None"

definition proof_A :: WeightProof where
  "proof_A = \<lparr>recent_chain_data = chain_A\<rparr>"

text \<open>
  The blockchain after \<open>receive_block\<close> of the genesis block on the empty one, and
  after \<open>receive_block\<close> of its child on that.
\<close>

definition after_genesis :: WalletBlockchain where
  "after_genesis =
     \<lparr>basic_store = [''PEAK_BLOCK'' \<mapsto> StoredHeaderBlock genesis],
      synced_weight_proof = None, peak = Some genesis,
      height_to_hash_map = [0 \<mapsto> HashEntry 100],
      block_records = [100 \<mapsto> record_of_header genesis], latest_timestamp = 1000\<rparr>"

definition after_child :: WalletBlockchain where
  "after_child =
     \<lparr>basic_store = [''PEAK_BLOCK'' \<mapsto> StoredHeaderBlock child],
      synced_weight_proof = None, peak = Some child,
      height_to_hash_map = [1 \<mapsto> RecordEntry (record_of_header child)],
      block_records = [100 \<mapsto> record_of_header genesis, 101 \<mapsto> record_of_header child],
      latest_timestamp = 1010\<rparr>"

text \<open>A weight proof whose recent chain data are the genesis block and its child.\<close>

definition proof_child :: WeightProof where
  "proof_child = \<lparr>recent_chain_data = [genesis, child]\<rparr>"

text \<open>The blockchain after \<open>receive_block\<close> of the sibling on that.\<close>

definition after_sibling :: WalletBlockchain where
  "after_sibling = after_child\<lparr>block_records := (block_records after_child)(151 \<mapsto> record_of_header sibling)\<rparr>"

text \<open>
  The blockchain after \<open>new_weight_proof\<close> of that proof on the blockchain that holds
  the genesis block.
\<close>

definition after_proof_child :: WalletBlockchain where
  "after_proof_child =
     \<lparr>basic_store = [''SYNCED_WEIGHT_PROOF'' \<mapsto> StoredWeightProof proof_child,
                     ''PEAK_BLOCK'' \<mapsto> StoredHeaderBlock child],
      synced_weight_proof = Some proof_child, peak = Some child,
      height_to_hash_map = [0 \<mapsto> HashEntry 100, 1 \<mapsto> HashEntry 101],
      block_records = [100 \<mapsto> record_of_header genesis, 101 \<mapsto> record_of_header child],
      latest_timestamp = 1010\<rparr>"

text \<open>
  The entries of the height dictionary for the heights below \<open>n\<close>, as
  \<open>height_to_hash\<close> returns them.
\<close>

definition height_index :: "WalletBlockchain \<Rightarrow> nat \<Rightarrow> (exn + height_entry) list" where
  "height_index s n = map (height_to_hash s) [0 ..< n]"

text \<open>
  Chain A adopted from its weight proof on the empty blockchain, and the blocks of
  chain B below height 12 received on that.
\<close>

definition adopted_A :: WalletBlockchain where
  "adopted_A = snd (new_weight_proof simple_externals empty_chain proof_A None)"

definition with_B :: "nat \<Rightarrow> WalletBlockchain option" where
  "with_B k = receive_blocks simple_externals adopted_A (chain_B k)"

text \<open>
  The call \<open>receive_block\<close> of the block of height 12 on a blockchain.
\<close>

definition receive_B12 ::
  "WalletBlockchain option
     \<Rightarrow> ((exn + ReceiveBlockResult \<times> Err option) \<times> (exn + height_entry) list) option" where
  "receive_B12 so =
     (case so of
        None \<Rightarrow> None
      | Some s \<Rightarrow>
          (case receive_block simple_externals s B12 of
             None \<Rightarrow> None
           | Some (out, s') \<Rightarrow> Some (out, height_index s' 13)))"

section \<open>Simplification sets\<close>

lemmas scenario_defs =
  simple_externals_def rejecting_externals_def empty_chain_def genesis_def child_def
  sibling_def mk_block_def record_of_header_def find_fork_point_in_chain_spec_def
  chain_A_def chain_B_def B12_def proof_A_def

lemmas operation_defs =
  receive_block_def adopt_block_def contains_block_def contains_height_def
  sub_slot_iters_and_difficulty_def try_block_record_def block_record_def
  add_block_record_def set_peak_block_def set_object_def remove_object_def
  rollback_to_height_def height_to_hash_def new_weight_proof_def no_update_def
  get_peak_block_def get_object_HeaderBlock_def get_object_WeightProof_def
  recent_chain_data_last_def get_peak_height_def get_latest_timestamp_def create_def

lemma recent_chain_data_last_nonempty:
  "recent_chain_data wp \<noteq> [] \<Longrightarrow>
     recent_chain_data_last wp = Inr (last (recent_chain_data wp))"
  by (cases "recent_chain_data wp") (simp_all add: recent_chain_data_last_def)

section \<open>Frame lemmas\<close>

lemma set_peak_block_frame [simp]:
  "height_to_hash_map (set_peak_block s b ts) = height_to_hash_map s"
  "block_records (set_peak_block s b ts) = block_records s"
  "synced_weight_proof (set_peak_block s b ts) = synced_weight_proof s"
  "peak (set_peak_block s b ts) = Some b"
  "basic_store (set_peak_block s b ts) = (basic_store s)(''PEAK_BLOCK'' \<mapsto> StoredHeaderBlock b)"
  by (simp_all add: set_peak_block_def set_object_def Let_def split: option.splits)

lemma set_peak_block_timestamp:
  "latest_timestamp (set_peak_block s b ts) =
     (case ts of
        Some t \<Rightarrow> t
      | None \<Rightarrow>
          (case hb_foliage_transaction_block b of
             Some t \<Rightarrow> t
           | None \<Rightarrow> latest_timestamp s))"
  by (simp add: set_peak_block_def Let_def split: option.splits)

lemma add_block_record_frame [simp]:
  "height_to_hash_map (add_block_record s r) = height_to_hash_map s"
  "block_records (add_block_record s r) = (block_records s)(header_hash r \<mapsto> r)"
  "synced_weight_proof (add_block_record s r) = synced_weight_proof s"
  "peak (add_block_record s r) = peak s"
  "basic_store (add_block_record s r) = basic_store s"
  "latest_timestamp (add_block_record s r) = latest_timestamp s"
  by (simp_all add: add_block_record_def)

lemma rollback_to_height_frame:
  assumes "rollback_to_height s fh = (out, s')"
  shows "block_records s' = block_records s" and "peak s' = peak s"
    and "latest_timestamp s' = latest_timestamp s"
    and "synced_weight_proof s' = synced_weight_proof s"
  using assms
  by (auto simp add: rollback_to_height_def split: option.splits prod.splits sum.splits)

section \<open>Concrete runs\<close>

lemma receive_genesis:
  "receive_block simple_externals empty_chain genesis
     = Some (Inr (NEW_PEAK, None), after_genesis)"
  by (simp add: operation_defs scenario_defs after_genesis_def Let_def)

lemma receive_child:
  "receive_block simple_externals after_genesis child
     = Some (Inr (NEW_PEAK, None), after_child)"
  by (simp add: operation_defs scenario_defs after_genesis_def after_child_def Let_def
        repopulate.simps)

lemma receive_orphan_child:
  "receive_block simple_externals empty_chain child
     = Some (Inr (DISCONNECTED_BLOCK, Some INVALID_PREV_BLOCK_HASH), empty_chain)"
  by (simp add: operation_defs scenario_defs Let_def)

section \<open>Queries\<close>

text \<open>
  C10. When no peak has been set, \<open>get_peak_height\<close> returns 0, the same value as
  for a blockchain whose peak is a block of height 0: the query alone does not tell
  the two apart.
\<close>

theorem get_peak_height_uninitialized:
  assumes "peak s = None" and "peak s' = Some g" and "hb_height g = 0"
  shows "get_peak_height s = 0 \<and> get_peak_height s' = get_peak_height s"
  using assms by (simp add: get_peak_height_def)

theorem get_peak_height_uninitialized_witness:
  "peak empty_chain = None \<and> peak (empty_chain\<lparr>peak := Some genesis\<rparr>) = Some genesis
   \<and> hb_height genesis = 0 \<and> get_peak_height empty_chain = 0
   \<and> get_peak_height (empty_chain\<lparr>peak := Some genesis\<rparr>) = get_peak_height empty_chain"
  using get_peak_height_uninitialized
          [of empty_chain "empty_chain\<lparr>peak := Some genesis\<rparr>" genesis]
  by (simp add: empty_chain_def genesis_def mk_block_def)

section \<open>Weight proofs\<close>

lemma stale_proof_returns:
  assumes "get_peak_block s = Some p"
    and "recent_chain_data wp \<noteq> []"
    and "hb_weight (last (recent_chain_data wp)) \<le> hb_weight p"
  shows "new_weight_proof ext s wp records = (Inr (), s)"
  using assms
  by (simp add: new_weight_proof_def no_update_def recent_chain_data_last_nonempty)

text \<open>
  C5. When a peak exists (in memory or persisted) and the weight of the last entry of
  the proof's recent chain data is at most the peak's weight, \<open>new_weight_proof\<close>
  returns without an exception and leaves the whole blockchain as it was: peak,
  height dictionary, block records, latest timestamp and the persisted objects.
\<close>

theorem new_weight_proof_stale_noop:
  assumes "get_peak_block s = Some p"
    and "recent_chain_data wp \<noteq> []"
    and "hb_weight (last (recent_chain_data wp)) \<le> hb_weight p"
  shows "new_weight_proof ext s wp records = (Inr (), s)"
  using assms by (rule stale_proof_returns)

theorem new_weight_proof_stale_noop_witness:
  "get_peak_block (empty_chain\<lparr>peak := Some child\<rparr>) = Some child
   \<and> recent_chain_data \<lparr>recent_chain_data = [genesis, child]\<rparr> \<noteq> []
   \<and> hb_weight (last (recent_chain_data \<lparr>recent_chain_data = [genesis, child]\<rparr>))
        \<le> hb_weight child
   \<and> new_weight_proof simple_externals (empty_chain\<lparr>peak := Some child\<rparr>)
        \<lparr>recent_chain_data = [genesis, child]\<rparr> None
      = (Inr (), empty_chain\<lparr>peak := Some child\<rparr>)"
  using new_weight_proof_stale_noop
          [of "empty_chain\<lparr>peak := Some child\<rparr>" child
              "\<lparr>recent_chain_data = [genesis, child]\<rparr>" simple_externals None]
  by (simp add: get_peak_block_def empty_chain_def)

section \<open>Receiving a header block\<close>

text \<open>
  C7. Whenever \<open>receive_block\<close> returns \<open>DISCONNECTED_BLOCK\<close> or
  \<open>INVALID_BLOCK\<close>, the blockchain is exactly as before the call and the block is
  not in the index. The block records change only when the block has passed the
  validation of the call, and an entry of the height dictionary is deleted only when,
  moreover, the new record's weight strictly exceeds the weight of the existing peak.
\<close>

theorem receive_block_failure_atomic:
  assumes "receive_block ext s block = Some (out, s')"
  shows "((\<exists>err. out = Inr (DISCONNECTED_BLOCK, err)) \<or> (\<exists>err. out = Inr (INVALID_BLOCK, err))
            \<longrightarrow> s' = s \<and> \<not> contains_block s' (hb_header_hash block))
       \<and> (block_records s' \<noteq> block_records s \<longrightarrow>
            (\<exists>si d ri. sub_slot_iters_and_difficulty ext s block = Some (si, d)
               \<and> validate_finished_header_block ext s block d si = (Some ri, None)))
       \<and> ((\<exists>h. contains_height s h \<and> \<not> contains_height s' h) \<longrightarrow>
            (\<exists>si d ri p. sub_slot_iters_and_difficulty ext s block = Some (si, d)
               \<and> validate_finished_header_block ext s block d si = (Some ri, None)
               \<and> peak s = Some p
               \<and> hb_weight p < weight (block_to_block_record ext s ri block)))"
proof (cases "contains_block s (hb_header_hash block)")
  case True
  with assms show ?thesis by (auto simp add: receive_block_def)
next
  case nc: False
  show ?thesis
  proof (cases "sub_slot_iters_and_difficulty ext s block")
    case None
    with assms nc show ?thesis by (auto simp add: receive_block_def)
  next
    case (Some sd)
    obtain si d where sd: "sd = (si, d)" by (cases sd)
    obtain ri er where v: "validate_finished_header_block ext s block d si = (ri, er)"
      by (cases "validate_finished_header_block ext s block d si")
    show ?thesis
    proof (cases "er = None \<and> ri \<noteq> None")
      case False
      with assms nc Some sd v show ?thesis
        by (auto simp add: receive_block_def split: option.splits)
    next
      case True
      then obtain r where r: "ri = Some r" "er = None" by auto
      define br where "br = block_to_block_record ext s r block"
      from assms nc Some sd v r
      have ad: "adopt_block ext (add_block_record s br) block br = Some (out, s')"
        by (simp add: receive_block_def br_def Let_def)
      have val: "\<exists>si d ri. sub_slot_iters_and_difficulty ext s block = Some (si, d)
               \<and> validate_finished_header_block ext s block d si = (Some ri, None)"
        using Some sd v r by auto
      have p1: "\<not> ((\<exists>err. out = Inr (DISCONNECTED_BLOCK, err)) \<or> (\<exists>err. out = Inr (INVALID_BLOCK, err)))"
        using ad
        by (auto simp add: adopt_block_def Let_def split: option.splits if_splits sum.splits prod.splits)
      have p3: "(\<exists>h. contains_height s h \<and> \<not> contains_height s' h) \<longrightarrow>
                  (\<exists>p. peak s = Some p \<and> hb_weight p < weight br)"
        using ad
        by (auto simp add: adopt_block_def Let_def contains_height_def
            split: option.splits if_splits sum.splits prod.splits)
      from p1 val p3 show ?thesis
        using Some sd v r br_def by auto
    qed
  qed
qed

theorem receive_block_failure_atomic_witness:
  "receive_block simple_externals empty_chain child
     = Some (Inr (DISCONNECTED_BLOCK, Some INVALID_PREV_BLOCK_HASH), empty_chain)
   \<and> \<not> contains_block empty_chain (hb_header_hash child)
   \<and> receive_block simple_externals after_genesis child = Some (Inr (NEW_PEAK, None), after_child)
   \<and> contains_height after_genesis 0 \<and> \<not> contains_height after_child 0
   \<and> block_records after_child \<noteq> block_records after_genesis
   \<and> (\<exists>si d ri p. sub_slot_iters_and_difficulty simple_externals after_genesis child = Some (si, d)
               \<and> validate_finished_header_block simple_externals after_genesis child d si = (Some ri, None)
               \<and> peak after_genesis = Some p
               \<and> hb_weight p < weight (block_to_block_record simple_externals after_genesis ri child))"
proof -
  have a: "contains_height after_genesis 0 \<and> \<not> contains_height after_child 0"
    by (simp add: contains_height_def after_genesis_def after_child_def)
  have b: "block_records after_child \<noteq> block_records after_genesis"
    by (simp add: after_genesis_def after_child_def fun_eq_iff)
  from receive_block_failure_atomic [OF receive_orphan_child]
       receive_block_failure_atomic [OF receive_child] a b receive_orphan_child receive_child
  show ?thesis by blast
qed

section \<open>Persisting the weight proof\<close>

lemma apply_records_frame:
  assumes "apply_records rs s ts = (out, s')"
  shows "basic_store s' = basic_store s \<and> synced_weight_proof s' = synced_weight_proof s
         \<and> peak s' = peak s \<and> latest_timestamp s' = latest_timestamp s"
  using assms
proof (induction rs arbitrary: s ts)
  case Nil
  then show ?case by simp
next
  case (Cons r rs)
  show ?case
  proof (cases "is_transaction_block r")
    case False
    with Cons.prems have "apply_records rs (add_block_record (s\<lparr>height_to_hash_map :=
                   (height_to_hash_map s)(height r \<mapsto> HashEntry (header_hash r))\<rparr>) r) ts = (out, s')"
      by (simp add: Let_def)
    from Cons.IH [OF this] show ?thesis by simp
  next
    case True
    show ?thesis
    proof (cases "timestamp r")
      case None
      with True Cons.prems show ?thesis by (auto simp add: Let_def)
    next
      case (Some t)
      with True Cons.prems have "apply_records rs (add_block_record (s\<lparr>height_to_hash_map :=
                   (height_to_hash_map s)(height r \<mapsto> HashEntry (header_hash r))\<rparr>) r)
                   (if t > ts then t else ts) = (out, s')"
        by (simp add: Let_def)
      from Cons.IH [OF this] show ?thesis by simp
    qed
  qed
qed

lemma guard_passed:
  assumes "get_peak_block s = None
           \<or> (\<exists>p. get_peak_block s = Some p \<and> recent_chain_data wp \<noteq> []
                  \<and> hb_weight p < hb_weight (last (recent_chain_data wp)))"
  shows "no_update (get_peak_block s) wp = Inr False"
  using assms by (auto simp add: no_update_def recent_chain_data_last_nonempty)

text \<open>
  C8. Once the guard of \<open>new_weight_proof\<close> is passed (no peak, or the weight of the
  proof's last recent-chain-data entry strictly exceeds the peak's weight), the proof
  is stored in memory and persisted under \<open>SYNCED_WEIGHT_PROOF\<close> before the verifier
  runs and before any record is applied: whatever the outcome of the call, the stored
  proof is the new one, and when the verifier rejects the proof the call raises the
  assertion error and leaves exactly that change behind.
\<close>

theorem weight_proof_persisted_before_verification:
  assumes "get_peak_block s = None
           \<or> (\<exists>p. get_peak_block s = Some p \<and> recent_chain_data wp \<noteq> []
                  \<and> hb_weight p < hb_weight (last (recent_chain_data wp)))"
  shows "(new_weight_proof ext s wp records = (out, s') \<longrightarrow>
            synced_weight_proof s' = Some wp
            \<and> get_object_WeightProof (basic_store s') ''SYNCED_WEIGHT_PROOF'' = Some wp)
       \<and> (\<not> fst (validate_weight_proof ext wp) \<longrightarrow>
            new_weight_proof ext s wp None
              = (Inl AssertionError,
                 s\<lparr>synced_weight_proof := Some wp,
                   basic_store := (basic_store s)(''SYNCED_WEIGHT_PROOF'' \<mapsto> StoredWeightProof wp)\<rparr>))"
proof (intro conjI impI)
  note g = guard_passed [OF assms]
  assume "\<not> fst (validate_weight_proof ext wp)"
  then obtain rs where "validate_weight_proof ext wp = (False, rs)"
    by (cases "validate_weight_proof ext wp") auto
  then show "new_weight_proof ext s wp None
              = (Inl AssertionError,
                 s\<lparr>synced_weight_proof := Some wp,
                   basic_store := (basic_store s)(''SYNCED_WEIGHT_PROOF'' \<mapsto> StoredWeightProof wp)\<rparr>)"
    using g by (simp add: new_weight_proof_def set_object_def Let_def)
next
  note g = guard_passed [OF assms]
  assume run: "new_weight_proof ext s wp records = (out, s')"
  define s2 where "s2 = s\<lparr>synced_weight_proof := Some wp,
       basic_store := (basic_store s)(''SYNCED_WEIGHT_PROOF'' \<mapsto> StoredWeightProof wp)\<rparr>"
  have s2: "synced_weight_proof s2 = Some wp"
    "basic_store s2 ''SYNCED_WEIGHT_PROOF'' = Some (StoredWeightProof wp)"
    by (simp_all add: s2_def)
  have "synced_weight_proof s' = Some wp
        \<and> basic_store s' ''SYNCED_WEIGHT_PROOF'' = Some (StoredWeightProof wp)"
    using run g s2
    by (auto simp add: new_weight_proof_def set_object_def Let_def s2_def [symmetric]
        split: prod.splits sum.splits option.splits if_splits
        dest!: apply_records_frame)
  then show "synced_weight_proof s' = Some wp" 
    and "get_object_WeightProof (basic_store s') ''SYNCED_WEIGHT_PROOF'' = Some wp"
    by (simp_all add: get_object_WeightProof_def)
qed

theorem weight_proof_persisted_before_verification_witness:
  "get_peak_block after_genesis = Some genesis
   \<and> recent_chain_data proof_child \<noteq> []
   \<and> hb_weight genesis < hb_weight (last (recent_chain_data proof_child))
   \<and> \<not> fst (validate_weight_proof rejecting_externals proof_child)
   \<and> get_object_WeightProof (basic_store after_genesis) ''SYNCED_WEIGHT_PROOF'' = None
   \<and> new_weight_proof rejecting_externals after_genesis proof_child None
       = (Inl AssertionError,
          after_genesis\<lparr>synced_weight_proof := Some proof_child,
            basic_store := (basic_store after_genesis)
               (''SYNCED_WEIGHT_PROOF'' \<mapsto> StoredWeightProof proof_child)\<rparr>)
   \<and> get_object_WeightProof
        (basic_store (snd (new_weight_proof rejecting_externals after_genesis proof_child None)))
        ''SYNCED_WEIGHT_PROOF'' = Some proof_child"
proof -
  have a: "get_peak_block after_genesis = Some genesis"
    by (simp add: get_peak_block_def after_genesis_def)
  have b: "recent_chain_data proof_child \<noteq> []" by (simp add: proof_child_def)
  have c: "hb_weight genesis < hb_weight (last (recent_chain_data proof_child))"
    by (simp add: proof_child_def genesis_def child_def mk_block_def)
  have d: "\<not> fst (validate_weight_proof rejecting_externals proof_child)"
    by (simp add: rejecting_externals_def)
  have e: "get_object_WeightProof (basic_store after_genesis) ''SYNCED_WEIGHT_PROOF'' = None"
    by (simp add: get_object_WeightProof_def after_genesis_def)
  have g: "get_peak_block after_genesis = None
           \<or> (\<exists>p. get_peak_block after_genesis = Some p \<and> recent_chain_data proof_child \<noteq> []
                  \<and> hb_weight p < hb_weight (last (recent_chain_data proof_child)))"
    using a b c by simp
  from weight_proof_persisted_before_verification [OF g, of rejecting_externals None
      "fst (new_weight_proof rejecting_externals after_genesis proof_child None)"
      "snd (new_weight_proof rejecting_externals after_genesis proof_child None)"]
    a b c d e
  show ?thesis by (simp add: get_object_WeightProof_def)
qed

section \<open>Idempotence\<close>

lemma adopt_block_records:
  assumes "adopt_block ext s1 block br = Some (out, s')"
  shows "block_records s' = block_records s1"
  using assms
  by (auto simp add: adopt_block_def Let_def
      split: option.splits if_splits sum.splits prod.splits
      dest: rollback_to_height_frame(1))

lemma adopt_block_peak:
  assumes "adopt_block ext s1 block br = Some (out, s')"
  shows "(out \<noteq> Inr (NEW_PEAK, None) \<and> peak s' = peak s1)
         \<or> (out = Inr (NEW_PEAK, None) \<and> peak s' = Some block
             \<and> (\<forall>p. peak s1 = Some p \<longrightarrow> hb_weight p < weight br))"
  using assms
  by (auto simp add: adopt_block_def Let_def
      split: option.splits if_splits sum.splits prod.splits
      dest: rollback_to_height_frame(2))

lemma adopt_block_equal_weight:
  assumes "adopt_block ext s1 block br = Some (out, s')"
    and "peak s1 = Some p" and "weight br = hb_weight p"
  shows "out = Inr (ADDED_AS_ORPHAN, None) \<and> s' = s1"
  using assms by (simp add: adopt_block_def)

text \<open>The shape of every completed call.\<close>

lemma receive_block_cases:
  assumes "receive_block ext s block = Some (out, s')"
  shows "(s' = s \<and> (out = Inr (ALREADY_HAVE_BLOCK, None) \<and> contains_block s (hb_header_hash block)
                   \<or> (\<exists>e. out = Inr (DISCONNECTED_BLOCK, e))
                   \<or> (\<exists>e. out = Inr (INVALID_BLOCK, e))))
         \<or> (\<exists>ri. adopt_block ext (add_block_record s (block_to_block_record ext s ri block)) block
                    (block_to_block_record ext s ri block) = Some (out, s'))"
  using assms
  by (auto simp add: receive_block_def Let_def split: if_splits option.splits prod.splits)

text \<open>
  C6, as amended. After a call of \<open>receive_block\<close> that returned any result other
  than \<open>DISCONNECTED_BLOCK\<close> or \<open>INVALID_BLOCK\<close>, a second call with the same
  header block returns \<open>ALREADY_HAVE_BLOCK\<close> with no error code and leaves the
  blockchain as it was, given that the record of a block carries the block's hash.
\<close>

theorem receive_block_idempotent:
  assumes "record_keeps_hash ext"
    and "receive_block ext s block = Some (Inr (res, err), s1)"
    and "res \<noteq> DISCONNECTED_BLOCK" and "res \<noteq> INVALID_BLOCK"
  shows "receive_block ext s1 block = Some (Inr (ALREADY_HAVE_BLOCK, None), s1)"
proof -
  have "contains_block s1 (hb_header_hash block)"
    using receive_block_cases [OF assms(2)]
  proof (elim disjE exE conjE)
    fix ri
    assume "adopt_block ext (add_block_record s (block_to_block_record ext s ri block)) block
              (block_to_block_record ext s ri block) = Some (Inr (res, err), s1)"
    from adopt_block_records [OF this] assms(1)
    show ?thesis by (simp add: contains_block_def record_keeps_hash_def)
  qed (use assms(3,4) in auto)
  then show ?thesis by (simp add: receive_block_def)
qed

theorem receive_block_idempotent_witness:
  "record_keeps_hash simple_externals
   \<and> receive_block simple_externals empty_chain genesis = Some (Inr (NEW_PEAK, None), after_genesis)
   \<and> NEW_PEAK \<noteq> DISCONNECTED_BLOCK \<and> NEW_PEAK \<noteq> INVALID_BLOCK
   \<and> receive_block simple_externals after_genesis genesis
       = Some (Inr (ALREADY_HAVE_BLOCK, None), after_genesis)"
proof -
  have k: "record_keeps_hash simple_externals"
    by (simp add: record_keeps_hash_def simple_externals_def record_of_header_def)
  from receive_block_idempotent [OF k receive_genesis] k receive_genesis
  show ?thesis by simp
qed

text \<open>
  C6, as stated, fails after \<open>DISCONNECTED_BLOCK\<close>: the block of a failed call is
  not indexed, and the second call repeats the first result.
\<close>

theorem receive_block_idempotent_counterexample:
  "receive_block simple_externals empty_chain child
     = Some (Inr (DISCONNECTED_BLOCK, Some INVALID_PREV_BLOCK_HASH), empty_chain)
   \<and> receive_block simple_externals empty_chain child
     \<noteq> Some (Inr (ALREADY_HAVE_BLOCK, None), empty_chain)"
  by (simp add: receive_orphan_child)

section \<open>Fork choice\<close>

lemma receive_block_peak_step:
  assumes kw: "record_keeps_weight ext"
    and run: "receive_block ext s b = Some (out, s1)"
  shows "(out = Inr (NEW_PEAK, None) \<or> peak s1 \<noteq> peak s \<longrightarrow>
            out = Inr (NEW_PEAK, None) \<and> peak s1 = Some b
            \<and> (\<forall>p. peak s = Some p \<longrightarrow> hb_weight p < hb_weight b))"
  using receive_block_cases [OF run]
proof (elim disjE exE conjE)
  fix ri
  assume ad: "adopt_block ext (add_block_record s (block_to_block_record ext s ri b)) b
              (block_to_block_record ext s ri b) = Some (out, s1)"
  from adopt_block_peak [OF ad] kw show ?thesis
    by (auto simp add: record_keeps_weight_def)
qed auto

lemma receive_block_equal_weight:
  assumes kw: "record_keeps_weight ext"
    and run: "receive_block ext s b = Some (out, s1)"
    and pk: "peak s = Some p" and eq: "hb_weight b = hb_weight p"
  shows "peak s1 = peak s
         \<and> (out = Inr (ADDED_AS_ORPHAN, None)
            \<or> s1 = s \<and> (out = Inr (ALREADY_HAVE_BLOCK, None)
                         \<or> (\<exists>e. out = Inr (DISCONNECTED_BLOCK, e))
                         \<or> (\<exists>e. out = Inr (INVALID_BLOCK, e))))"
  using receive_block_cases [OF run]
proof (elim disjE exE conjE)
  fix ri
  assume ad: "adopt_block ext (add_block_record s (block_to_block_record ext s ri b)) b
              (block_to_block_record ext s ri b) = Some (out, s1)"
  have "weight (block_to_block_record ext s ri b) = hb_weight p"
    using kw eq by (simp add: record_keeps_weight_def)
  from adopt_block_equal_weight [OF ad _ this] pk show ?thesis by simp
qed auto

lemma receive_block_peak_weight:
  assumes kw: "record_keeps_weight ext"
    and run: "receive_block ext s b = Some (out, s1)"
  shows "peak_weight s \<le> peak_weight s1 \<and> (peak s \<noteq> None \<longrightarrow> peak s1 \<noteq> None)"
proof (cases "peak s1 = peak s")
  case True
  then show ?thesis by (simp add: peak_weight_def)
next
  case False
  with receive_block_peak_step [OF kw run]
  have "peak s1 = Some b" and "\<forall>p. peak s = Some p \<longrightarrow> hb_weight p < hb_weight b"
    by auto
  then show ?thesis by (auto simp add: peak_weight_def split: option.splits)
qed

lemma receive_blocks_peak_weight:
  assumes kw: "record_keeps_weight ext"
  shows "receive_blocks ext s bs = Some s' \<Longrightarrow>
           peak_weight s \<le> peak_weight s' \<and> (peak s \<noteq> None \<longrightarrow> peak s' \<noteq> None)"
proof (induction bs arbitrary: s)
  case Nil
  then show ?case by simp
next
  case (Cons b bs)
  from Cons.prems obtain out s1 where
    step: "receive_block ext s b = Some (out, s1)" and rest: "receive_blocks ext s1 bs = Some s'"
    by (auto split: option.splits)
  from receive_block_peak_weight [OF kw step] Cons.IH [OF rest]
  show ?case by auto
qed

lemma receive_sibling:
  "receive_block simple_externals after_child sibling
     = Some (Inr (ADDED_AS_ORPHAN, None), after_sibling)"
  by (simp add: operation_defs scenario_defs after_child_def after_sibling_def Let_def)

lemma simple_keeps_weight: "record_keeps_weight simple_externals"
  by (simp add: record_keeps_weight_def simple_externals_def record_of_header_def)

text \<open>
  C4. Given that the record of a block carries the block's weight: over every sequence
  of \<open>receive_block\<close> calls the peak's weight does not decrease and a peak, once
  set, stays set; a call changes the peak only when it returns \<open>NEW_PEAK\<close>, the
  new peak is the received block, and its weight strictly exceeds that of the previous
  peak if there was one; a block whose weight equals the peak's never changes the
  peak: the call returns \<open>ADDED_AS_ORPHAN\<close>, or one of the early results without
  any effect.
\<close>

theorem peak_weight_monotone_strict:
  assumes "record_keeps_weight ext"
  shows "(receive_blocks ext s bs = Some s' \<longrightarrow>
            peak_weight s \<le> peak_weight s' \<and> (peak s \<noteq> None \<longrightarrow> peak s' \<noteq> None))
       \<and> (receive_block ext s b = Some (out, s1) \<longrightarrow>
            (out = Inr (NEW_PEAK, None) \<or> peak s1 \<noteq> peak s \<longrightarrow>
               out = Inr (NEW_PEAK, None) \<and> peak s1 = Some b
               \<and> (\<forall>p. peak s = Some p \<longrightarrow> hb_weight p < hb_weight b))
          \<and> (\<forall>p. peak s = Some p \<and> hb_weight b = hb_weight p \<longrightarrow>
               peak s1 = peak s
               \<and> (out = Inr (ADDED_AS_ORPHAN, None)
                  \<or> s1 = s \<and> (out = Inr (ALREADY_HAVE_BLOCK, None)
                               \<or> (\<exists>e. out = Inr (DISCONNECTED_BLOCK, e))
                               \<or> (\<exists>e. out = Inr (INVALID_BLOCK, e))))))"
proof -
  have seq: "receive_blocks ext s bs = Some s' \<longrightarrow>
            peak_weight s \<le> peak_weight s' \<and> (peak s \<noteq> None \<longrightarrow> peak s' \<noteq> None)"
    using receive_blocks_peak_weight [OF assms] by blast
  have step: "receive_block ext s b = Some (out, s1) \<longrightarrow>
            (out = Inr (NEW_PEAK, None) \<or> peak s1 \<noteq> peak s \<longrightarrow>
               out = Inr (NEW_PEAK, None) \<and> peak s1 = Some b
               \<and> (\<forall>p. peak s = Some p \<longrightarrow> hb_weight p < hb_weight b))"
    using receive_block_peak_step [OF assms] by blast
  have tie: "receive_block ext s b = Some (out, s1) \<longrightarrow>
           (\<forall>p. peak s = Some p \<and> hb_weight b = hb_weight p \<longrightarrow>
               peak s1 = peak s
               \<and> (out = Inr (ADDED_AS_ORPHAN, None)
                  \<or> s1 = s \<and> (out = Inr (ALREADY_HAVE_BLOCK, None)
                               \<or> (\<exists>e. out = Inr (DISCONNECTED_BLOCK, e))
                               \<or> (\<exists>e. out = Inr (INVALID_BLOCK, e)))))"
    using receive_block_equal_weight [OF assms] by blast
  from seq step tie show ?thesis by blast
qed

theorem peak_weight_monotone_strict_witness:
  "record_keeps_weight simple_externals
   \<and> receive_blocks simple_externals after_genesis [child, sibling] = Some after_sibling
   \<and> peak_weight after_genesis = 0 \<and> peak_weight after_sibling = 10
   \<and> peak_weight after_genesis \<le> peak_weight after_sibling
   \<and> receive_block simple_externals after_genesis child = Some (Inr (NEW_PEAK, None), after_child)
   \<and> peak after_genesis = Some genesis \<and> peak after_child = Some child
   \<and> hb_weight genesis < hb_weight child
   \<and> receive_block simple_externals after_child sibling
       = Some (Inr (ADDED_AS_ORPHAN, None), after_sibling)
   \<and> hb_weight sibling = hb_weight child
   \<and> peak after_sibling = peak after_child"
proof -
  have seq: "receive_blocks simple_externals after_genesis [child, sibling] = Some after_sibling"
    by (simp add: receive_child receive_sibling)
  have seq2: "receive_blocks simple_externals after_child [sibling] = Some after_sibling"
    by (simp add: receive_sibling)
  have pk: "peak after_genesis = Some genesis" "peak after_child = Some child"
    "peak after_sibling = peak after_child"
    by (simp_all add: after_genesis_def after_child_def after_sibling_def)
  have w: "peak_weight after_genesis = 0" "peak_weight after_sibling = 10"
    "hb_weight sibling = hb_weight child" "hb_weight genesis < hb_weight child"
    by (simp_all add: peak_weight_def after_genesis_def after_sibling_def after_child_def
        child_def sibling_def genesis_def mk_block_def)
  from peak_weight_monotone_strict [OF simple_keeps_weight,
          of after_genesis "[child, sibling]" after_sibling child
             "Inr (NEW_PEAK, None)" after_child]
       peak_weight_monotone_strict [OF simple_keeps_weight,
          of after_child "[sibling]" after_sibling sibling
             "Inr (ADDED_AS_ORPHAN, None)" after_sibling]
       simple_keeps_weight seq seq2 pk w receive_child receive_sibling
  show ?thesis by simp
qed

section \<open>The latest timestamp\<close>

lemma repopulate_timestamp:
  assumes "repopulate recs0 fh0 cur0 m0 ts0 = Some y0"
  shows "case fst y0 of Inr ts' \<Rightarrow> ts0 \<le> ts' | Inl e \<Rightarrow> True"
proof (rule repopulate.raw_induct
    [where P = "\<lambda>recs fh cur m ts y. case fst y of Inr ts' \<Rightarrow> ts \<le> ts' | Inl e \<Rightarrow> True",
      OF _ assms])
  fix rep recs fh cur m ts y
  assume IH: "\<And>recs fh cur m ts y. rep recs fh cur m ts = Some y \<Longrightarrow>
                 case fst y of Inr ts' \<Rightarrow> ts \<le> ts' | Inl e \<Rightarrow> True"
    and eq: "(if fh < int (height cur)
      then let m1 = m(height cur \<mapsto> RecordEntry cur);
               ts1 = case timestamp cur of None \<Rightarrow> ts | Some t \<Rightarrow> if ts < t then t else ts
           in if height cur = 0 then Some (Inr ts1, m1)
              else case recs (prev_hash cur) of
                     None \<Rightarrow> Some (Inl KeyError, m1)
                   | Some r \<Rightarrow> rep recs fh r m1 ts1
      else Some (Inr ts, m)) = Some y"
  show "case fst y of Inr ts' \<Rightarrow> ts \<le> ts' | Inl e \<Rightarrow> True"
  proof (cases "fh < int (height cur)")
    case False
    with eq show ?thesis by auto
  next
    case above: True
    define ts1 where "ts1 = (case timestamp cur of None \<Rightarrow> ts | Some t \<Rightarrow> if ts < t then t else ts)"
    have le: "ts \<le> ts1" by (simp add: ts1_def split: option.splits)
    show ?thesis
    proof (cases "height cur = 0")
      case True
      with above eq le show ?thesis by (auto simp add: Let_def ts1_def)
    next
      case nz: False
      show ?thesis
      proof (cases "recs (prev_hash cur)")
        case None
        with above nz eq show ?thesis by (auto simp add: Let_def)
      next
        case (Some r)
        with above nz eq
        have "rep recs fh r (m(height cur \<mapsto> RecordEntry cur)) ts1 = Some y"
          by (simp add: Let_def ts1_def)
        from IH [OF this] le show ?thesis
          by (auto split: sum.splits)
      qed
    qed
  qed
qed

lemma apply_records_timestamp:
  "apply_records rs s ts = (Inr ts', s') \<Longrightarrow> ts \<le> ts'"
proof (induction rs arbitrary: s ts)
  case Nil
  then show ?case by simp
next
  case (Cons r rs)
  define s2 where "s2 = add_block_record (s\<lparr>height_to_hash_map :=
                   (height_to_hash_map s)(height r \<mapsto> HashEntry (header_hash r))\<rparr>) r"
  show ?case
  proof (cases "is_transaction_block r")
    case False
    with Cons.prems have "apply_records rs s2 ts = (Inr ts', s')"
      by (simp add: Let_def s2_def)
    from Cons.IH [OF this] show ?thesis .
  next
    case True
    show ?thesis
    proof (cases "timestamp r")
      case None
      with True Cons.prems show ?thesis by (simp add: Let_def)
    next
      case (Some t)
      with True Cons.prems have "apply_records rs s2 (if t > ts then t else ts) = (Inr ts', s')"
        by (simp add: Let_def s2_def)
      from Cons.IH [OF this] show ?thesis by (simp split: if_splits)
    qed
  qed
qed

lemma adopt_block_timestamp:
  assumes ti: "timestamp_initial s1"
    and run: "adopt_block ext s1 block br = Some (out, s')"
  shows "latest_timestamp s1 \<le> latest_timestamp s' \<and> timestamp_initial s'"
proof (cases "peak s1")
  case None
  with ti have "latest_timestamp s1 = 0" by (simp add: timestamp_initial_def)
  moreover from run None have "peak s' = Some block"
    by (auto simp add: adopt_block_def Let_def)
  ultimately show ?thesis by (simp add: timestamp_initial_def)
next
  case (Some p)
  then have pk: "peak s' \<noteq> None"
    using adopt_block_peak [OF run] by auto
  have "latest_timestamp s1 \<le> latest_timestamp s'"
  proof (cases "weight br > hb_weight p")
    case False
    with run Some show ?thesis by (simp add: adopt_block_def)
  next
    case True
    define fk where "fk = (if prev_hash br = hb_header_hash p then Inr (int (hb_height p))
                      else find_fork_point_in_chain ext s1 br p)"
    show ?thesis
    proof (cases fk)
      case (Inl e)
      with run Some True show ?thesis by (simp add: adopt_block_def fk_def [symmetric])
    next
      case (Inr fork_height)
      obtain ro s2 where rb: "rollback_to_height s1 fork_height = (ro, s2)"
        by (cases "rollback_to_height s1 fork_height")
      note fr = rollback_to_height_frame [OF rb]
      show ?thesis
      proof (cases ro)
        case (Inl e)
        with run Some True Inr rb fr show ?thesis
          by (simp add: adopt_block_def fk_def [symmetric])
      next
        case ok: (Inr u)
        with run Some True Inr rb obtain y where
          rp: "repopulate (block_records s2) fork_height br (height_to_hash_map s2)
                 (latest_timestamp s2) = Some y"
          by (auto simp add: adopt_block_def fk_def [symmetric] split: option.splits)
        obtain o2 m where y: "y = (o2, m)" by (cases y)
        from repopulate_timestamp [OF rp] y
        have le: "case o2 of Inr ts' \<Rightarrow> latest_timestamp s2 \<le> ts' | Inl e \<Rightarrow> True" by simp
        from run Some True Inr rb ok rp y le fr(3) show ?thesis
          by (auto simp add: adopt_block_def fk_def [symmetric] set_peak_block_timestamp
              split: sum.splits)
      qed
    qed
  qed
  with pk show ?thesis by (auto simp add: timestamp_initial_def)
qed

lemma receive_block_timestamp:
  assumes ti: "timestamp_initial s"
    and run: "receive_block ext s b = Some (out, s')"
  shows "latest_timestamp s \<le> latest_timestamp s' \<and> timestamp_initial s'"
  using receive_block_cases [OF run]
proof (elim disjE exE conjE)
  fix ri
  assume ad: "adopt_block ext (add_block_record s (block_to_block_record ext s ri b)) b
              (block_to_block_record ext s ri b) = Some (out, s')"
  have "timestamp_initial (add_block_record s (block_to_block_record ext s ri b))"
    using ti by (simp add: timestamp_initial_def)
  from adopt_block_timestamp [OF this ad] show ?thesis by simp
qed (use ti in auto)

lemma new_weight_proof_timestamp:
  assumes ti: "timestamp_initial s"
    and run: "new_weight_proof ext s wp rs = (out, s')"
  shows "latest_timestamp s \<le> latest_timestamp s' \<and> timestamp_initial s'"
proof (cases "no_update (get_peak_block s) wp = Inr False")
  case False
  with run have "s' = s"
    by (auto simp add: new_weight_proof_def split: sum.splits bool.splits)
  with ti show ?thesis by simp
next
  case True
  define s2 where "s2 = s\<lparr>synced_weight_proof := Some wp,
       basic_store := set_object (basic_store (s\<lparr>synced_weight_proof := Some wp\<rparr>))
          ''SYNCED_WEIGHT_PROOF'' (StoredWeightProof wp)\<rparr>"
  have s2: "latest_timestamp s2 = latest_timestamp s" "peak s2 = peak s"
    by (simp_all add: s2_def)
  define vr where "vr = (case rs of Some rs \<Rightarrow> Inr rs
                    | None \<Rightarrow> (case validate_weight_proof ext wp of
                           (success, rs) \<Rightarrow> if success then Inr rs else Inl AssertionError))"
  from run True have run2: "(case vr of Inl e \<Rightarrow> (Inl e, s2)
              | Inr rs \<Rightarrow>
                  (case apply_records rs s2 (latest_timestamp s2) of
                     (Inl e, s3) \<Rightarrow> (Inl e, s3)
                   | (Inr ts, s3) \<Rightarrow>
                       (case recent_chain_data_last wp of
                          Inl e \<Rightarrow> (Inl e, s3)
                        | Inr tail \<Rightarrow> (Inr (), set_peak_block s3 tail (Some ts))))) = (out, s')"
    unfolding new_weight_proof_def Let_def s2_def vr_def by simp
  show ?thesis
  proof (cases vr)
    case (Inl e)
    with run2 s2 ti show ?thesis by (auto simp add: timestamp_initial_def)
  next
    case (Inr recs)
    obtain ao s3 where ar: "apply_records recs s2 (latest_timestamp s2) = (ao, s3)"
      by (cases "apply_records recs s2 (latest_timestamp s2)")
    note fr = apply_records_frame [OF ar]
    show ?thesis
    proof (cases ao)
      case (Inl e)
      with run2 Inr ar fr s2 ti show ?thesis by (auto simp add: timestamp_initial_def)
    next
      case ts: (Inr ts')
      with ar have le: "latest_timestamp s2 \<le> ts'" using apply_records_timestamp by blast
      from run2 Inr ar ts fr s2 ti le show ?thesis
        by (auto simp add: timestamp_initial_def set_peak_block_timestamp split: sum.splits)
    qed
  qed
qed

lemma apply_mutation_timestamp:
  assumes "timestamp_initial s" and "apply_mutation ext s m = Some s'"
  shows "latest_timestamp s \<le> latest_timestamp s' \<and> timestamp_initial s'"
proof (cases m)
  case (ReceiveBlock b)
  with assms(2) obtain out where "receive_block ext s b = Some (out, s')" by auto
  from receive_block_timestamp [OF assms(1) this] show ?thesis .
next
  case (NewWeightProof wp rs)
  with assms(2) have "new_weight_proof ext s wp rs = (fst (new_weight_proof ext s wp rs), s')"
    by auto
  from new_weight_proof_timestamp [OF assms(1) this] show ?thesis .
qed

lemma apply_mutations_timestamp:
  "timestamp_initial s \<Longrightarrow> apply_mutations ext s ms = Some s' \<Longrightarrow>
     latest_timestamp s \<le> latest_timestamp s'"
proof (induction ms arbitrary: s)
  case Nil
  then show ?case by simp
next
  case (Cons m ms)
  from Cons.prems(2) obtain s1 where
    step: "apply_mutation ext s m = Some s1" and rest: "apply_mutations ext s1 ms = Some s'"
    by (auto split: option.splits)
  from apply_mutation_timestamp [OF Cons.prems(1) step] Cons.IH [OF _ rest]
  show ?case by auto
qed

lemma ingest_proof_child:
  "new_weight_proof simple_externals after_genesis proof_child None = (Inr (), after_proof_child)"
  by (simp add: operation_defs scenario_defs after_genesis_def after_proof_child_def
        proof_child_def Let_def fun_eq_iff)

lemma create_timestamp_initial:
  "timestamp_initial (snd (create store ext))"
proof -
  define s2 where "s2 = \<lparr>basic_store = store,
        synced_weight_proof = get_object_WeightProof store ''SYNCED_WEIGHT_PROOF'',
        peak = get_object_HeaderBlock store ''PEAK_BLOCK'',
        height_to_hash_map = Map.empty, block_records = Map.empty, latest_timestamp = 0\<rparr>"
  have ti: "timestamp_initial s2" by (simp add: timestamp_initial_def s2_def)
  show ?thesis
  proof (cases "get_object_WeightProof store ''SYNCED_WEIGHT_PROOF''")
    case None
    with ti show ?thesis
      by (simp add: create_def get_peak_block_def Let_def s2_def)
  next
    case (Some wp)
    have "new_weight_proof ext s2 wp None
          = (fst (new_weight_proof ext s2 wp None), snd (new_weight_proof ext s2 wp None))"
      by simp
    from new_weight_proof_timestamp [OF ti this] Some show ?thesis
      by (simp add: create_def get_peak_block_def Let_def s2_def)
  qed
qed

text \<open>
  C9. From a blockchain whose latest timestamp is still the initial 0 as long as no
  peak is set, no sequence of \<open>receive_block\<close> and \<open>new_weight_proof\<close> calls
  decreases the value of \<open>get_latest_timestamp\<close>: the extension and reorganisation
  path and the ingestion of a weight proof start from the previous value and only
  raise it. \<open>set_peak_block\<close> takes the latest timestamp from its argument, or
  without one from the block's transaction-block timestamp, and leaves it unchanged
  when the block has none.
\<close>

theorem latest_timestamp_monotone:
  assumes "timestamp_initial s"
  shows "(apply_mutations ext s ms = Some s' \<longrightarrow>
            get_latest_timestamp s \<le> get_latest_timestamp s')
       \<and> get_latest_timestamp (set_peak_block s b (Some t)) = t
       \<and> (hb_foliage_transaction_block b = Some t \<longrightarrow>
            get_latest_timestamp (set_peak_block s b None) = t)
       \<and> (hb_foliage_transaction_block b = None \<longrightarrow>
            get_latest_timestamp (set_peak_block s b None) = get_latest_timestamp s)"
  using apply_mutations_timestamp [OF assms, of ext ms s']
  by (simp add: get_latest_timestamp_def set_peak_block_timestamp)



theorem latest_timestamp_monotone_witness:
  "timestamp_initial empty_chain
   \<and> apply_mutations simple_externals empty_chain
        [ReceiveBlock genesis, NewWeightProof proof_child None, ReceiveBlock sibling]
       = Some (after_proof_child\<lparr>block_records :=
                 (block_records after_proof_child)(151 \<mapsto> record_of_header sibling)\<rparr>)
   \<and> get_latest_timestamp empty_chain = 0
   \<and> get_latest_timestamp (after_proof_child\<lparr>block_records :=
                 (block_records after_proof_child)(151 \<mapsto> record_of_header sibling)\<rparr>) = 1010
   \<and> get_latest_timestamp (set_peak_block empty_chain genesis (Some 7)) = 7
   \<and> hb_foliage_transaction_block genesis = Some 1000
   \<and> get_latest_timestamp (set_peak_block empty_chain genesis None) = 1000
   \<and> hb_foliage_transaction_block B12 = None
   \<and> get_latest_timestamp (set_peak_block after_genesis B12 None)
       = get_latest_timestamp after_genesis"
proof -
  have ti: "timestamp_initial empty_chain"
    by (simp add: timestamp_initial_def empty_chain_def)
  have ti2: "timestamp_initial after_genesis"
    by (simp add: timestamp_initial_def after_genesis_def)
  have sib: "receive_block simple_externals after_proof_child sibling
     = Some (Inr (ADDED_AS_ORPHAN, None), after_proof_child\<lparr>block_records :=
                 (block_records after_proof_child)(151 \<mapsto> record_of_header sibling)\<rparr>)"
    by (simp add: operation_defs scenario_defs after_proof_child_def Let_def)
  have run: "apply_mutations simple_externals empty_chain
        [ReceiveBlock genesis, NewWeightProof proof_child None, ReceiveBlock sibling]
       = Some (after_proof_child\<lparr>block_records :=
                 (block_records after_proof_child)(151 \<mapsto> record_of_header sibling)\<rparr>)"
    by (simp add: receive_genesis ingest_proof_child sib)
  have v: "get_latest_timestamp empty_chain = 0"
    "get_latest_timestamp (after_proof_child\<lparr>block_records :=
                 (block_records after_proof_child)(151 \<mapsto> record_of_header sibling)\<rparr>) = 1010"
    "hb_foliage_transaction_block genesis = Some 1000"
    "hb_foliage_transaction_block B12 = None"
    by (simp_all add: get_latest_timestamp_def empty_chain_def after_proof_child_def
        genesis_def B12_def mk_block_def)
  from latest_timestamp_monotone [OF ti, of simple_externals
          "[ReceiveBlock genesis, NewWeightProof proof_child None, ReceiveBlock sibling]"
          "after_proof_child\<lparr>block_records :=
                 (block_records after_proof_child)(151 \<mapsto> record_of_header sibling)\<rparr>"
          genesis 7]
       latest_timestamp_monotone [OF ti, of simple_externals "[]" empty_chain genesis 1000]
       latest_timestamp_monotone [OF ti2, of simple_externals "[]" after_genesis B12 0]
       ti run v
  show ?thesis by simp
qed

section \<open>The height dictionary\<close>

text \<open>
  What the heavier-chain path of \<open>receive_block\<close> does to the entry of the fork
  height, for every instance of the collaborators: a successful rollback deletes it
  and the loop never writes at or below the fork height.
\<close>

lemma del_heights_result:
  "del_heights hs m = (Inr u, m') \<Longrightarrow> m' = (\<lambda>h. if h \<in> set hs then None else m h)"
proof (induction hs arbitrary: m)
  case Nil
  then show ?case by simp
next
  case (Cons x xs)
  from Cons.prems obtain e where "m x = Some e" and "del_heights xs (m(x := None)) = (Inr u, m')"
    by (auto split: option.splits)
  from Cons.IH [OF this(2)] show ?case by auto
qed

lemma repopulate_below:
  assumes "repopulate recs0 fh0 cur0 m0 ts0 = Some y0"
  shows "\<forall>h. int h \<le> fh0 \<longrightarrow> snd y0 h = m0 h"
proof (rule repopulate.raw_induct
    [where P = "\<lambda>recs fh cur m ts y. \<forall>h. int h \<le> fh \<longrightarrow> snd y h = m h", OF _ assms])
  fix rep recs fh cur m ts y
  assume IH: "\<And>recs fh cur m ts y. rep recs fh cur m ts = Some y \<Longrightarrow>
                 \<forall>h. int h \<le> fh \<longrightarrow> snd y h = m h"
    and eq: "(if fh < int (height cur)
      then let m1 = m(height cur \<mapsto> RecordEntry cur);
               ts1 = case timestamp cur of None \<Rightarrow> ts | Some t \<Rightarrow> if ts < t then t else ts
           in if height cur = 0 then Some (Inr ts1, m1)
              else case recs (prev_hash cur) of
                     None \<Rightarrow> Some (Inl KeyError, m1)
                   | Some r \<Rightarrow> rep recs fh r m1 ts1
      else Some (Inr ts, m)) = Some y"
  show "\<forall>h. int h \<le> fh \<longrightarrow> snd y h = m h"
  proof (cases "fh < int (height cur)")
    case False
    with eq show ?thesis by auto
  next
    case above: True
    define ts1 where "ts1 = (case timestamp cur of None \<Rightarrow> ts | Some t \<Rightarrow> if ts < t then t else ts)"
    show ?thesis
    proof (cases "height cur = 0")
      case True
      with above eq show ?thesis by (auto simp add: Let_def)
    next
      case nz: False
      show ?thesis
      proof (cases "recs (prev_hash cur)")
        case None
        with above nz eq show ?thesis by (auto simp add: Let_def)
      next
        case (Some r)
        with above nz eq
        have "rep recs fh r (m(height cur \<mapsto> RecordEntry cur)) ts1 = Some y"
          by (simp add: Let_def ts1_def)
        from IH [OF this] above show ?thesis by auto
      qed
    qed
  qed
qed

lemma adopt_block_drops_fork_height:
  assumes run: "adopt_block ext s1 block br = Some (Inr (NEW_PEAK, None), s')"
    and pk: "peak s1 = Some p"
    and fk: "(if prev_hash br = hb_header_hash p then Inr (int (hb_height p))
              else find_fork_point_in_chain ext s1 br p) = Inr fh"
    and range: "0 \<le> fh" "fh \<le> int (hb_height p)"
  shows "height_to_hash_map s' (nat fh) = None"
proof -
  from run pk have heavier: "weight br > hb_weight p"
    by (auto simp add: adopt_block_def split: if_splits)
  obtain ro s2 where rb: "rollback_to_height s1 fh = (ro, s2)"
    by (cases "rollback_to_height s1 fh")
  from run pk heavier fk rb obtain u where ro: "ro = Inr u"
    by (cases ro) (auto simp add: adopt_block_def)
  from rb ro pk obtain m2 where
    dh: "del_heights [nat (max 0 fh) ..< hb_height p + 1] (height_to_hash_map s1) = (Inr u, m2)"
    and s2: "height_to_hash_map s2 = m2"
    by (auto simp add: rollback_to_height_def split: prod.splits sum.splits)
  have gone: "m2 (nat fh) = None"
    using del_heights_result [OF dh] range by auto
  from run pk heavier fk rb ro obtain ts m where
    rp: "repopulate (block_records s2) fh br (height_to_hash_map s2) (latest_timestamp s2)
           = Some (Inr ts, m)"
    and s': "s' = set_peak_block (s2\<lparr>height_to_hash_map := m\<rparr>) block (Some ts)"
    by (auto simp add: adopt_block_def split: option.splits sum.splits)
  from repopulate_below [OF rp] range have "m (nat fh) = height_to_hash_map s2 (nat fh)"
    by simp
  with gone s2 s' show ?thesis by simp
qed

lemma extension_drops_parent_height:
  assumes "adopt_block ext s1 block br = Some (Inr (NEW_PEAK, None), s')"
    and "peak s1 = Some p" and "prev_hash br = hb_header_hash p"
  shows "height_to_hash_map s' (hb_height p) = None"
  using adopt_block_drops_fork_height [OF assms(1,2), where fh = "int (hb_height p)"] assms(3)
  by simp

text \<open>
  C1. The claim fails on the code. The genesis block, then its child, are received
  on the empty blockchain, and both calls return \<open>NEW_PEAK\<close>. After the first the
  height dictionary maps 0 to the hash of the genesis block. After the second the
  peak height is 1, \<open>height_to_hash(0)\<close> raises \<open>KeyError\<close> (the rollback deleted
  the entry of the fork height and the loop rewrites only the heights above it), and
  \<open>height_to_hash(1)\<close> is the block record of the child, not its header hash.
\<close>

theorem height_index_after_extension:
  "receive_block simple_externals empty_chain genesis = Some (Inr (NEW_PEAK, None), after_genesis)
   \<and> height_index after_genesis 1 = [Inr (HashEntry (hb_header_hash genesis))]
   \<and> receive_block simple_externals after_genesis child = Some (Inr (NEW_PEAK, None), after_child)
   \<and> get_peak_height after_child = 1
   \<and> height_index after_child 2 = [Inl KeyError, Inr (RecordEntry (record_of_header child))]"
proof -
  have "height_index after_genesis 1 = [Inr (HashEntry (hb_header_hash genesis))]"
    by (simp add: height_index_def height_to_hash_def after_genesis_def genesis_def mk_block_def)
  moreover have "get_peak_height after_child = 1"
    by (simp add: get_peak_height_def after_child_def child_def mk_block_def)
  moreover have "height_index after_child 2
                 = [Inl KeyError, Inr (RecordEntry (record_of_header child))]"
    by (simp add: height_index_def height_to_hash_def after_child_def upt_rec)
  ultimately show ?thesis by (simp add: receive_genesis receive_child)
qed


section \<open>Reorganisation\<close>

lemma adopted_A_index:
  "height_index adopted_A 11 = map (\<lambda>b. Inr (HashEntry (hb_header_hash b))) chain_A"
  by code_simp

lemma adopted_A_peak: "peak adopted_A = Some (last chain_A)"
  by code_simp

lemma fork_after_4:
  "receive_B12 (with_B 5) =
     Some (Inr (NEW_PEAK, None),
           map (\<lambda>b. Inr (HashEntry (hb_header_hash b))) (take 4 chain_A)
           @ [Inl KeyError]
           @ map (\<lambda>b. Inr (RecordEntry (record_of_header b))) (chain_B 5 @ [B12]))"
  by code_simp

lemma fork_after_5:
  "receive_B12 (with_B 6) =
     Some (Inr (NEW_PEAK, None),
           map (\<lambda>b. Inr (HashEntry (hb_header_hash b))) (take 5 chain_A)
           @ [Inl KeyError]
           @ map (\<lambda>b. Inr (RecordEntry (record_of_header b))) (chain_B 6 @ [B12]))"
  by code_simp

lemma fork_of_received_chain:
  "map_option fst
     (receive_B12 (receive_blocks simple_externals empty_chain (chain_A @ chain_B 5)))
   = Some (Inl KeyError)"
  by code_simp

text \<open>
  C2. The claim fails on the code. Chain A (heights 0 to 10) is adopted from its
  weight proof, the height dictionary holds its eleven hashes, and the blocks of chain
  B below height 12 are received. When \<open>receive_block\<close> adopts the block of height 12
  (\<open>NEW_PEAK\<close>): with chain B's own blocks from height 5 on, the entry of height 4
  is gone and the entries of heights 5 to 12 are block records, not hashes; with
  chain B's own blocks from height 6 on, the entry of height 5 is gone and the entries
  of heights 6 to 12 are block records. When chain A was itself received block by
  block, the call for the block of height 12 raises \<open>KeyError\<close>.
\<close>

theorem rollback_height_index:
  "height_index adopted_A 11 = map (\<lambda>b. Inr (HashEntry (hb_header_hash b))) chain_A
   \<and> peak adopted_A = Some (last chain_A)
   \<and> receive_B12 (with_B 5) =
       Some (Inr (NEW_PEAK, None),
             map (\<lambda>b. Inr (HashEntry (hb_header_hash b))) (take 4 chain_A)
             @ [Inl KeyError]
             @ map (\<lambda>b. Inr (RecordEntry (record_of_header b))) (chain_B 5 @ [B12]))
   \<and> receive_B12 (with_B 6) =
       Some (Inr (NEW_PEAK, None),
             map (\<lambda>b. Inr (HashEntry (hb_header_hash b))) (take 5 chain_A)
             @ [Inl KeyError]
             @ map (\<lambda>b. Inr (RecordEntry (record_of_header b))) (chain_B 6 @ [B12]))
   \<and> map_option fst
        (receive_B12 (receive_blocks simple_externals empty_chain (chain_A @ chain_B 5)))
      = Some (Inl KeyError)"
  using adopted_A_index adopted_A_peak fork_after_4 fork_after_5 fork_of_received_chain
  by simp


section \<open>Initialisation\<close>

lemma create_with_persisted_peak:
  assumes "get_object_WeightProof store ''SYNCED_WEIGHT_PROOF'' = Some wp"
    and "get_object_HeaderBlock store ''PEAK_BLOCK'' = Some p"
    and "recent_chain_data wp \<noteq> []"
    and "hb_weight (last (recent_chain_data wp)) \<le> hb_weight p"
  shows "create store ext
         = (Inr (), \<lparr>basic_store = store, synced_weight_proof = Some wp, peak = Some p,
                     height_to_hash_map = Map.empty, block_records = Map.empty,
                     latest_timestamp = 0\<rparr>)"
proof -
  define s2 where "s2 = \<lparr>basic_store = store, synced_weight_proof = Some wp, peak = Some p,
                     height_to_hash_map = Map.empty, block_records = Map.empty,
                     latest_timestamp = 0\<rparr>"
  have "get_peak_block s2 = Some p" by (simp add: get_peak_block_def s2_def)
  from stale_proof_returns [OF this assms(3,4)]
  have "new_weight_proof ext s2 wp None = (Inr (), s2)" .
  then show ?thesis
    using assms(1,2) by (simp add: create_def get_peak_block_def Let_def s2_def)
qed

lemma adopted_A_store:
  "get_object_WeightProof (basic_store adopted_A) ''SYNCED_WEIGHT_PROOF'' = Some proof_A
   \<and> get_object_HeaderBlock (basic_store adopted_A) ''PEAK_BLOCK'' = Some (last chain_A)"
  by code_simp

lemma adopted_A_records:
  "map (contains_block adopted_A) (map hb_header_hash chain_A) = replicate 11 True"
  by code_simp

lemma restart_index:
  "fst (create (basic_store adopted_A) simple_externals) = Inr ()
   \<and> peak (snd (create (basic_store adopted_A) simple_externals)) = Some (last chain_A)
   \<and> synced_weight_proof (snd (create (basic_store adopted_A) simple_externals)) = Some proof_A
   \<and> height_index (snd (create (basic_store adopted_A) simple_externals)) 11
       = replicate 11 (Inl KeyError)
   \<and> map (contains_block (snd (create (basic_store adopted_A) simple_externals)))
         (map hb_header_hash chain_A) = replicate 11 False"
  by code_simp

text \<open>
  C3. The claim fails on the code. A run that adopted chain A from its weight proof
  leaves the proof and the peak block in the store and all eleven records in the
  index. \<open>create\<close> on that store returns with the persisted peak and weight proof,
  with an empty height dictionary and with none of the eleven records: the peak read
  from the store makes the guard of \<open>new_weight_proof\<close> return at once.
\<close>

theorem create_leaves_index_empty:
  "get_object_WeightProof (basic_store adopted_A) ''SYNCED_WEIGHT_PROOF'' = Some proof_A
   \<and> get_object_HeaderBlock (basic_store adopted_A) ''PEAK_BLOCK'' = Some (last chain_A)
   \<and> map (contains_block adopted_A) (map hb_header_hash chain_A) = replicate 11 True
   \<and> fst (create (basic_store adopted_A) simple_externals) = Inr ()
   \<and> peak (snd (create (basic_store adopted_A) simple_externals)) = Some (last chain_A)
   \<and> synced_weight_proof (snd (create (basic_store adopted_A) simple_externals)) = Some proof_A
   \<and> height_index (snd (create (basic_store adopted_A) simple_externals)) 11
       = replicate 11 (Inl KeyError)
   \<and> map (contains_block (snd (create (basic_store adopted_A) simple_externals)))
         (map hb_header_hash chain_A) = replicate 11 False"
  using adopted_A_store adopted_A_records restart_index by simp

end
